theory Spec2Isabelle
  imports Complex_Main "HOL-Library.Sublist" "HOL-Library.Char_ord" "HOL-Library.List_Lexorder"
    "HOL-Library.Product_Lexorder"
begin

section \<open>The template service of the cursor-rules extension\<close>

text \<open>
  This theory embeds \<^verbatim>\<open>vscode-extension/src/templates/templateService.ts\<close> and the
  JSON schema \<^verbatim>\<open>vscode-extension/src/schemas/cursorrules.schema.json\<close>.

  The service is asynchronous, effectful code over the editor's file system API. Every
  method becomes a function that takes the world and returns its result together with the
  new world; a rejected promise (a thrown exception) is the \<open>Inl\<close> of a sum. One call is
  modelled: the awaits of a single call run in sequence, and nothing else writes the store
  in between.
\<close>

subsection \<open>Paths (Node's posix \<^verbatim>\<open>path\<close> module)\<close>

type_synonym path = string

text \<open>\<^verbatim>\<open>s.split(c)\<close> of JavaScript: the empty string gives one empty piece.\<close>

fun split_on :: "char \<Rightarrow> string \<Rightarrow> string list" where
  "split_on c [] = [[]]"
| "split_on c (x # xs) =
     (if x = c then [] # split_on c xs
      else (case split_on c xs of [] \<Rightarrow> [[x]] | y # ys \<Rightarrow> (x # y) # ys))"

fun join_with :: "string \<Rightarrow> string list \<Rightarrow> string" where
  "join_with sep [] = []"
| "join_with sep [x] = x"
| "join_with sep (x # y # ys) = x @ sep @ join_with sep (y # ys)"

text \<open>
  \<^verbatim>\<open>normalizeString\<close>: empty and \<^verbatim>\<open>.\<close> segments vanish, \<^verbatim>\<open>..\<close> removes the segment
  before it; above the start of a relative path \<^verbatim>\<open>..\<close> is kept. The accumulator holds
  the result reversed.
\<close>

fun normalize_segments :: "bool \<Rightarrow> string list \<Rightarrow> string list \<Rightarrow> string list" where
  "normalize_segments allowAboveRoot acc [] = rev acc"
| "normalize_segments allowAboveRoot acc (s # ss) =
     (if s = [] \<or> s = ''.'' then normalize_segments allowAboveRoot acc ss
      else if s = ''..'' then
        (case acc of
           [] \<Rightarrow> normalize_segments allowAboveRoot (if allowAboveRoot then [''..''] else []) ss
         | a # as \<Rightarrow>
             if a = ''..'' then normalize_segments allowAboveRoot (''..'' # acc) ss
             else normalize_segments allowAboveRoot as ss)
      else normalize_segments allowAboveRoot (s # acc) ss)"

definition path_normalize :: "path \<Rightarrow> path" where
  "path_normalize p =
     (if p = [] then ''.''
      else
        let isAbsolute = (hd p = CHR ''/'');
            trailingSeparator = (last p = CHR ''/'');
            s = join_with ''/'' (normalize_segments (\<not> isAbsolute) [] (split_on CHR ''/'' p))
        in if s = [] then (if isAbsolute then ''/'' else if trailingSeparator then ''./'' else ''.'')
           else (if isAbsolute then ''/'' else []) @ s @ (if trailingSeparator then ''/'' else []))"

definition path_join :: "path \<Rightarrow> path \<Rightarrow> path" where
  "path_join a b =
     (let parts = filter (\<lambda>s. s \<noteq> []) [a, b]
      in if parts = [] then ''.'' else path_normalize (join_with ''/'' parts))"

text \<open>
  \<^verbatim>\<open>path.dirname\<close>: scanning from the end down to index 1, trailing slashes are skipped,
  then the last segment, and the path is cut at the slash found there.
\<close>

definition path_dirname :: "path \<Rightarrow> path" where
  "path_dirname p =
     (if p = [] then ''.''
      else
        let hasRoot = (hd p = CHR ''/'');
            r = dropWhile (\<lambda>c. c \<noteq> CHR ''/'') (dropWhile (\<lambda>c. c = CHR ''/'') (rev (tl p)));
            e = length r
        in if r = [] then (if hasRoot then ''/'' else ''.'')
           else if hasRoot \<and> e = 1 then ''//''
           else take e p)"

text \<open>
  \<^verbatim>\<open>vscode.Uri.joinPath\<close> joins and normalises the path component; a \<^verbatim>\<open>file\<close> URI is
  identified with its path, and \<^verbatim>\<open>fsPath\<close> is that path (a posix host).
\<close>

definition joinPath :: "path \<Rightarrow> string \<Rightarrow> path" where
  "joinPath uri seg = path_join uri seg"

subsection \<open>The date of the backup name\<close>

text \<open>
  A \<^verbatim>\<open>Date\<close> is kept as its UTC calendar fields, which is all \<^verbatim>\<open>toISOString\<close> reads.
\<close>

record date =
  year :: nat
  month :: nat
  day :: nat
  hours :: nat
  minutes :: nat
  seconds :: nat
  milliseconds :: nat

definition digit :: "nat \<Rightarrow> char" where
  "digit n = char_of (48 + n mod 10)"

fun pad :: "nat \<Rightarrow> nat \<Rightarrow> string" where
  "pad 0 n = []"
| "pad (Suc w) n = pad w (n div 10) @ [digit n]"

text \<open>
  \<^verbatim>\<open>YYYY-MM-DDTHH:mm:ss.sssZ\<close>; a year beyond 9999 is written with a sign and six
  digits.
\<close>

definition toISOString :: "date \<Rightarrow> string" where
  "toISOString d =
     (if year d \<le> 9999 then pad 4 (year d) else ''+'' @ pad 6 (year d))
     @ ''-'' @ pad 2 (month d) @ ''-'' @ pad 2 (day d)
     @ ''T'' @ pad 2 (hours d) @ '':'' @ pad 2 (minutes d) @ '':'' @ pad 2 (seconds d)
     @ ''.'' @ pad 3 (milliseconds d) @ ''Z''"

text \<open>\<^verbatim>\<open>.replace(/[:.]/g, '-')\<close>\<close>

definition replace_colon_dot :: "string \<Rightarrow> string" where
  "replace_colon_dot s = map (\<lambda>c. if c = CHR '':'' \<or> c = CHR ''.'' then CHR ''-'' else c) s"

text \<open>
  Lines 126-130: the token \<^verbatim>\<open>timestamp\<close>, the template literal
  \<^verbatim>\<open>.cursorrules.${timestamp}.backup\<close> and the URI beside the target.
\<close>

definition timestamp_token :: "date \<Rightarrow> string" where
  "timestamp_token d = replace_colon_dot (toISOString d)"

definition backup_name :: "date \<Rightarrow> string" where
  "backup_name d = ''.cursorrules.'' @ timestamp_token d @ ''.backup''"

definition backup_uri :: "date \<Rightarrow> path \<Rightarrow> path" where
  "backup_uri d targetUri = joinPath (path_dirname targetUri) (backup_name d)"

subsection \<open>The world: file store, host faults, user interface\<close>

datatype node = File string | Directory

datatype fsop =
    OpStat path
  | OpCopy path path
  | OpDelete path
  | OpCreateDirectory path
  | OpWriteFile path
  | OpReadFile path
  | OpOpenTextDocument path
  | OpShowTextDocument path

datatype error = Error string

text \<open>
  \<open>files\<close> maps a path to what is stored there. \<open>denied\<close> holds the operations the host
  refuses for a reason the store does not show (permissions, an I/O error, a read-only
  directory); an operation fails as a whole and then changes nothing.
  \<open>workspaceFolders\<close> is \<^verbatim>\<open>vscode.workspace.workspaceFolders\<close> (\<open>None\<close> for
  \<^verbatim>\<open>undefined\<close>), \<open>clock\<close> what \<^verbatim>\<open>new Date()\<close> reads. The last three fields record what
  the call shows: information messages, lines of \<^verbatim>\<open>console.error\<close>, documents shown
  in an editor.
\<close>

record world =
  files :: "path \<rightharpoonup> node"
  denied :: "fsop set"
  workspaceFolders :: "path list option"
  clock :: date
  notifications :: "string list"
  console :: "string list"
  editors :: "path list"

definition is_below :: "path \<Rightarrow> path \<Rightarrow> bool" where
  "is_below d p = (strict_prefix (d @ ''/'') p)"

text \<open>\<^verbatim>\<open>vscode.workspace.fs.stat\<close>\<close>

definition fs_stat :: "world \<Rightarrow> path \<Rightarrow> error + node" where
  "fs_stat w p =
     (if OpStat p \<in> denied w then Inl (Error ''NoPermissions'')
      else (case files w p of None \<Rightarrow> Inl (Error ''FileNotFound'') | Some n \<Rightarrow> Inr n))"

text \<open>
  \<^verbatim>\<open>vscode.workspace.fs.copy(source, target, {overwrite})\<close>: copying a path onto
  itself does nothing; an existing target is an error unless \<open>overwrite\<close>, and is then
  deleted first, with all below it; a folder is copied with all below it.
\<close>

definition fs_copy :: "world \<Rightarrow> path \<Rightarrow> path \<Rightarrow> bool \<Rightarrow> error + world" where
  "fs_copy w src dst overwrite =
     (if OpCopy src dst \<in> denied w then Inl (Error ''NoPermissions'')
      else (case files w src of
        None \<Rightarrow> Inl (Error ''FileNotFound'')
      | Some n \<Rightarrow>
          if src = dst then Inr w
          else if is_below src dst then Inl (Error ''Unable to move/copy when source is parent of target.'')
          else if files w dst \<noteq> None \<and> \<not> overwrite then Inl (Error ''FileExists'')
          else if files w dst \<noteq> None \<and> is_below dst src
            then Inl (Error ''Unable to move/copy since a file would replace the folder it is contained in.'')
          else
            let base = (if files w dst \<noteq> None
                        then (\<lambda>p. if p = dst \<or> is_below dst p then None else files w p)
                        else files w)
            in (case n of
                  File c \<Rightarrow> Inr (w\<lparr>files := base(dst \<mapsto> File c)\<rparr>)
                | Directory \<Rightarrow>
                    Inr (w\<lparr>files := (\<lambda>p. if p = dst then Some Directory
                                            else if is_below dst p
                                            then (case files w (src @ drop (length dst) p) of
                                                    Some x \<Rightarrow> Some x
                                                  | None \<Rightarrow> base p)
                                            else base p)\<rparr>))))"

text \<open>\<^verbatim>\<open>vscode.workspace.fs.delete(uri)\<close>, not recursive: a folder must be empty.\<close>

definition fs_delete :: "world \<Rightarrow> path \<Rightarrow> error + world" where
  "fs_delete w p =
     (if OpDelete p \<in> denied w then Inl (Error ''NoPermissions'')
      else (case files w p of
        None \<Rightarrow> Inl (Error ''FileNotFound'')
      | Some (File c) \<Rightarrow> Inr (w\<lparr>files := (files w)(p := None)\<rparr>)
      | Some Directory \<Rightarrow>
          if (\<exists>q. is_below p q \<and> files w q \<noteq> None) then Inl (Error ''DirectoryNotEmpty'')
          else Inr (w\<lparr>files := (files w)(p := None)\<rparr>)))"

text \<open>\<^verbatim>\<open>vscode.workspace.fs.createDirectory\<close>: nothing to do when the folder is there.\<close>

definition fs_createDirectory :: "world \<Rightarrow> path \<Rightarrow> error + world" where
  "fs_createDirectory w p =
     (if OpCreateDirectory p \<in> denied w then Inl (Error ''NoPermissions'')
      else (case files w p of
        None \<Rightarrow> Inr (w\<lparr>files := (files w)(p \<mapsto> Directory)\<rparr>)
      | Some Directory \<Rightarrow> Inr w
      | Some (File c) \<Rightarrow> Inl (Error ''FileExists'')))"

text \<open>\<^verbatim>\<open>vscode.workspace.fs.writeFile\<close>: creates the file or replaces its whole content.\<close>

definition fs_writeFile :: "world \<Rightarrow> path \<Rightarrow> string \<Rightarrow> error + world" where
  "fs_writeFile w p c =
     (if OpWriteFile p \<in> denied w then Inl (Error ''NoPermissions'')
      else (case files w p of
        Some Directory \<Rightarrow> Inl (Error ''FileIsADirectory'')
      | _ \<Rightarrow> Inr (w\<lparr>files := (files w)(p \<mapsto> File c)\<rparr>)))"

text \<open>\<^verbatim>\<open>fs.promises.readFile(p, 'utf-8')\<close> of Node, with the messages of its errors.\<close>

definition readFile :: "world \<Rightarrow> path \<Rightarrow> error + string" where
  "readFile w p =
     (if OpReadFile p \<in> denied w
      then Inl (Error (''EACCES: permission denied, open '' @ [CHR 0x27] @ p @ [CHR 0x27]))
      else (case files w p of
        None \<Rightarrow>
          Inl (Error (''ENOENT: no such file or directory, open '' @ [CHR 0x27] @ p @ [CHR 0x27]))
      | Some Directory \<Rightarrow> Inl (Error ''EISDIR: illegal operation on a directory, read'')
      | Some (File c) \<Rightarrow> Inr c))"

definition showInformationMessage :: "world \<Rightarrow> string \<Rightarrow> world" where
  "showInformationMessage w m = w\<lparr>notifications := notifications w @ [m]\<rparr>"

definition console_error :: "world \<Rightarrow> string \<Rightarrow> world" where
  "console_error w m = w\<lparr>console := console w @ [m]\<rparr>"

text \<open>\<^verbatim>\<open>openTextDocument(uri)\<close> reads the file; \<^verbatim>\<open>showTextDocument\<close> puts it in an editor.\<close>

definition openTextDocument :: "world \<Rightarrow> path \<Rightarrow> error + path" where
  "openTextDocument w p =
     (if OpOpenTextDocument p \<in> denied w then Inl (Error ''cannot open'')
      else (case files w p of
        Some (File c) \<Rightarrow> Inr p
      | _ \<Rightarrow> Inl (Error ''cannot open'')))"

definition showTextDocument :: "world \<Rightarrow> path \<Rightarrow> error + world" where
  "showTextDocument w p =
     (if OpShowTextDocument p \<in> denied w then Inl (Error ''cannot show'')
      else Inr (w\<lparr>editors := editors w @ [p]\<rparr>))"

subsection \<open>The service\<close>

record RuleTemplate =
  template_id :: string
  name :: string
  category :: string
  description :: string
  content :: string

text \<open>The class and its constructor (lines 13-18).\<close>

record TemplateService =
  rulesPath :: path

definition new_TemplateService :: "path \<Rightarrow> TemplateService" where
  "new_TemplateService extensionPath = \<lparr>rulesPath = path_join (path_dirname extensionPath) ''rules''\<rparr>"

text \<open>
  A text is kept as the bytes of its UTF-8 form, which is what the file holds and what
  \<^verbatim>\<open>readFile(..., 'utf-8')\<close> decodes. \<^verbatim>\<open>String.prototype.trim\<close> removes the white space
  and the line terminators of ECMAScript at both ends. Those of one byte are tab, line
  feed, vertical tab, form feed, carriage return and space; of two bytes the no-break
  space U+00A0; of three bytes U+1680, U+2000 to U+200A, the line and paragraph separators
  U+2028 and U+2029, U+202F, U+205F, U+3000 and the byte order mark U+FEFF.
\<close>

definition white_space_1 :: "char \<Rightarrow> bool" where
  "white_space_1 a =
     (a = CHR 0x09 \<or> a = CHR 0x0A \<or> a = CHR 0x0B \<or> a = CHR 0x0C \<or> a = CHR 0x0D \<or> a = CHR 0x20)"

definition white_space_2 :: "char \<Rightarrow> char \<Rightarrow> bool" where
  "white_space_2 a b = (a = CHR 0xC2 \<and> b = CHR 0xA0)"

definition white_space_3 :: "char \<Rightarrow> char \<Rightarrow> char \<Rightarrow> bool" where
  "white_space_3 a b c =
     ((a = CHR 0xE1 \<and> b = CHR 0x9A \<and> c = CHR 0x80)
      \<or> (a = CHR 0xE2 \<and> b = CHR 0x80
          \<and> ((128::nat) \<le> of_char c \<and> of_char c \<le> (138::nat)
              \<or> c = CHR 0xA8 \<or> c = CHR 0xA9 \<or> c = CHR 0xAF))
      \<or> (a = CHR 0xE2 \<and> b = CHR 0x81 \<and> c = CHR 0x9F)
      \<or> (a = CHR 0xE3 \<and> b = CHR 0x80 \<and> c = CHR 0x80)
      \<or> (a = CHR 0xEF \<and> b = CHR 0xBB \<and> c = CHR 0xBF))"

text \<open>
  Removing such characters from the front of a text; the three tests say which one, two
  and three bytes are white space.
\<close>

fun strip ::
  "(char \<Rightarrow> bool) \<Rightarrow> (char \<Rightarrow> char \<Rightarrow> bool) \<Rightarrow> (char \<Rightarrow> char \<Rightarrow> char \<Rightarrow> bool) \<Rightarrow> string \<Rightarrow> string" where
  "strip p1 p2 p3 [] = []"
| "strip p1 p2 p3 [a] = (if p1 a then [] else [a])"
| "strip p1 p2 p3 [a, b] =
     (if p1 a then strip p1 p2 p3 [b] else if p2 a b then [] else [a, b])"
| "strip p1 p2 p3 (a # b # c # s) =
     (if p1 a then strip p1 p2 p3 (b # c # s)
      else if p2 a b then strip p1 p2 p3 (c # s)
      else if p3 a b c then strip p1 p2 p3 s
      else a # b # c # s)"

text \<open>At the end of the text the bytes of a character are met in reverse.\<close>

definition trim :: "string \<Rightarrow> string" where
  "trim s =
     rev (strip white_space_1 (\<lambda>a b. white_space_2 b a) (\<lambda>a b c. white_space_3 c b a)
       (rev (strip white_space_1 white_space_2 white_space_3 s)))"

text \<open>
  \<^verbatim>\<open>getTemplatesInCategory\<close> (lines 31-46). \<^verbatim>\<open>split\<close> gives at least one piece, so
  \<^verbatim>\<open>[0]\<close> is always there.
\<close>

definition getTemplatesInCategory ::
  "TemplateService \<Rightarrow> world \<Rightarrow> string \<Rightarrow> error + RuleTemplate list" where
  "getTemplatesInCategory this w cat =
     (let categoryPath = path_join (rulesPath this) cat
      in case readFile w (path_join categoryPath ''.cursorrules'') of
           Inl (Error m) \<Rightarrow>
             Inl (Error (''Failed to read templates in category '' @ cat @ '': '' @ m))
         | Inr c \<Rightarrow>
             Inr [\<lparr>template_id = cat, name = cat, category = cat,
                   description = trim (case split_on CHR 0x0A c of [] \<Rightarrow> [] | l # ls \<Rightarrow> l),
                   content = c\<rparr>])"

text \<open>\<^verbatim>\<open>convertTemplateContent\<close> (lines 56-58).\<close>

definition convertTemplateContent :: "string \<Rightarrow> string" where
  "convertTemplateContent c = c"

text \<open>\<^verbatim>\<open>ensureBackupDirectory\<close> (lines 60-69).\<close>

definition ensureBackupDirectory :: "world \<Rightarrow> path \<Rightarrow> (error + path) \<times> world" where
  "ensureBackupDirectory w workspaceUri =
     (let backupDirUri = joinPath workspaceUri ''.cursorrules-backup''
      in case fs_stat w backupDirUri of
           Inr n \<Rightarrow> (Inr backupDirUri, w)
         | Inl e \<Rightarrow>
             (case fs_createDirectory w backupDirUri of
                Inl e' \<Rightarrow> (Inl e', w)
              | Inr w' \<Rightarrow> (Inr backupDirUri, w')))"

text \<open>
  The body of the \<^verbatim>\<open>try\<close> of \<^verbatim>\<open>moveToBackupDirectory\<close> (lines 73-91): the world is
  returned also when a step throws, since the steps before it have happened.
\<close>

definition moveToBackupDirectory_try :: "world \<Rightarrow> path \<Rightarrow> (error + unit) \<times> world" where
  "moveToBackupDirectory_try w backupUri =
     (case (case workspaceFolders w of None \<Rightarrow> None | Some [] \<Rightarrow> None | Some (f # fs) \<Rightarrow> Some f) of
        None \<Rightarrow> (Inl (Error ''No workspace folder found''), w)
      | Some workspaceFolder \<Rightarrow>
          (case ensureBackupDirectory w workspaceFolder of
             (Inl e, w1) \<Rightarrow> (Inl e, w1)
           | (Inr backupDirUri, w1) \<Rightarrow>
               let fileName = last (split_on CHR ''/'' backupUri)
               in if fileName = [] then (Inl (Error ''Invalid backup file path''), w1)
                  else
                    let newBackupUri = joinPath backupDirUri fileName
                    in (case fs_copy w1 backupUri newBackupUri False of
                          Inl e \<Rightarrow> (Inl e, w1)
                        | Inr w2 \<Rightarrow>
                            (case fs_delete w2 backupUri of
                               Inl e \<Rightarrow> (Inl e, w2)
                             | Inr w3 \<Rightarrow> (Inr (), w3)))))"

text \<open>\<^verbatim>\<open>moveToBackupDirectory\<close> (lines 71-95): the \<^verbatim>\<open>catch\<close> logs and returns.\<close>

definition moveToBackupDirectory :: "world \<Rightarrow> path \<Rightarrow> world" where
  "moveToBackupDirectory w backupUri =
     (case moveToBackupDirectory_try w backupUri of
        (Inl (Error m), w') \<Rightarrow> console_error w' (''Failed to move backup file: '' @ m)
      | (Inr u, w') \<Rightarrow> w')"

text \<open>
  The inner \<^verbatim>\<open>try\<close> of \<^verbatim>\<open>saveTemplateToWorkspace\<close> (lines 112-137). \<open>choice\<close> is what
  \<^verbatim>\<open>showWarningMessage\<close> resolves to: the button chosen, or \<open>None\<close> (\<^verbatim>\<open>undefined\<close>) when
  the prompt is dismissed. The block either returns from the whole method (line 122) or
  falls through to the write; its \<^verbatim>\<open>catch\<close> swallows whatever was thrown inside.
\<close>

datatype flow = Return world | Proceed world

definition existing_file_block :: "world \<Rightarrow> string option \<Rightarrow> path \<Rightarrow> flow" where
  "existing_file_block w choice targetUri =
     (case fs_stat w targetUri of
        Inl e \<Rightarrow> Proceed w
      | Inr n \<Rightarrow>
          if choice \<noteq> Some ''Replace'' then Return w
          else
            let backupUri = backup_uri (clock w) targetUri
            in (case fs_copy w targetUri backupUri True of
                  Inl e \<Rightarrow> Proceed w
                | Inr w1 \<Rightarrow> Proceed (moveToBackupDirectory w1 backupUri)))"

definition save_error :: "error \<Rightarrow> error" where
  "save_error e = (case e of Error m \<Rightarrow> Error (''Failed to save template: '' @ m))"

text \<open>
  \<^verbatim>\<open>saveTemplateToWorkspace\<close> (lines 97-151). With \<^verbatim>\<open>workspaceFolders\<close> an empty array,
  \<^verbatim>\<open>workspaceFolders[0].uri\<close> throws a TypeError.
\<close>

definition saveTemplateToWorkspace ::
  "world \<Rightarrow> string option \<Rightarrow> RuleTemplate \<Rightarrow> path option \<Rightarrow> (error + unit) \<times> world" where
  "saveTemplateToWorkspace w choice template targetUri =
     (case (case targetUri of
              Some t \<Rightarrow> Inr t
            | None \<Rightarrow>
                (case workspaceFolders w of
                   None \<Rightarrow> Inl (Error ''No workspace folder found'')
                 | Some [] \<Rightarrow> Inl (Error ''Cannot read properties of undefined (reading 'uri')'')
                 | Some (f # fs) \<Rightarrow> Inr (joinPath f ''.cursorrules''))) of
        Inl e \<Rightarrow> (Inl (save_error e), w)
      | Inr target \<Rightarrow>
          let convertedContent = convertTemplateContent (content template)
          in (case existing_file_block w choice target of
                Return w1 \<Rightarrow> (Inr (), w1)
              | Proceed w1 \<Rightarrow>
                  (case fs_writeFile w1 target convertedContent of
                     Inl e \<Rightarrow> (Inl (save_error e), w1)
                   | Inr w2 \<Rightarrow>
                       let w3 = showInformationMessage w2 ''Template saved successfully''
                       in (case openTextDocument w3 target of
                             Inl e \<Rightarrow> (Inl (save_error e), w3)
                           | Inr document \<Rightarrow>
                               (case showTextDocument w3 document of
                                  Inl e \<Rightarrow> (Inl (save_error e), w3)
                                | Inr w4 \<Rightarrow> (Inr (), w4))))))"


subsection \<open>The schema of a configuration document\<close>

text \<open>
  \<^verbatim>\<open>cursorrules.schema.json\<close>, read as JSON Schema draft-07: each keyword of the file
  becomes the check it stands for.
\<close>

text \<open>A JSON value; the members of an object in the order of the text.\<close>

datatype json =
    JNull
  | JBool bool
  | JNumber real
  | JString string
  | JArray "json list"
  | JObject "(string \<times> json) list"

text \<open>The value of a member; of two members with one name the later one counts.\<close>

definition member_of :: "(string \<times> json) list \<Rightarrow> string \<Rightarrow> json option" where
  "member_of kvs k = map_of (rev kvs) k"

text \<open>\<^verbatim>\<open>"type": "string"\<close> and \<^verbatim>\<open>"type": "boolean"\<close>.\<close>

definition is_string :: "json \<Rightarrow> bool" where
  "is_string v = (case v of JString s \<Rightarrow> True | _ \<Rightarrow> False)"

definition is_boolean :: "json \<Rightarrow> bool" where
  "is_boolean v = (case v of JBool b \<Rightarrow> True | _ \<Rightarrow> False)"

text \<open>
  \<^verbatim>\<open>properties\<close> constrains a member only when it is there; \<^verbatim>\<open>required\<close> asks for it.
\<close>

definition property_ok :: "(string \<times> json) list \<Rightarrow> string \<Rightarrow> (json \<Rightarrow> bool) \<Rightarrow> bool" where
  "property_ok kvs k sub = (case member_of kvs k of None \<Rightarrow> True | Some v \<Rightarrow> sub v)"

definition required :: "(string \<times> json) list \<Rightarrow> string list \<Rightarrow> bool" where
  "required kvs ks = list_all (\<lambda>k. member_of kvs k \<noteq> None) ks"

text \<open>
  The pattern of \<^verbatim>\<open>version\<close> (line 11), \<^verbatim>\<open>^\d+\.\d+\.\d+$\<close>: digits, a dot, digits, a
  dot, digits, and nothing else.
\<close>

definition is_digit :: "char \<Rightarrow> bool" where
  "is_digit c = (c \<in> set ''0123456789'')"

fun expect_dot :: "string \<Rightarrow> string option" where
  "expect_dot [] = None"
| "expect_dot (c # cs) = (if c = CHR ''.'' then Some cs else None)"

definition version_pattern :: "string \<Rightarrow> bool" where
  "version_pattern s =
     (takeWhile is_digit s \<noteq> [] \<and>
      (case expect_dot (dropWhile is_digit s) of
         None \<Rightarrow> False
       | Some r \<Rightarrow>
           takeWhile is_digit r \<noteq> [] \<and>
           (case expect_dot (dropWhile is_digit r) of
              None \<Rightarrow> False
            | Some q \<Rightarrow> q \<noteq> [] \<and> list_all is_digit q)))"

text \<open>\<^verbatim>\<open>definitions.rule\<close> (lines 34-76), with the \<^verbatim>\<open>enum\<close> of \<^verbatim>\<open>level\<close> and the object \<^verbatim>\<open>fix\<close>.\<close>

definition level_enum :: "json list" where
  "level_enum = [JString ''error'', JString ''warning'', JString ''info'', JString ''hint'']"

definition valid_fix :: "json \<Rightarrow> bool" where
  "valid_fix v =
     (case v of
        JObject kvs \<Rightarrow>
          required kvs [''replace''] \<and>
          property_ok kvs ''replace'' is_string \<and>
          property_ok kvs ''message'' is_string
      | _ \<Rightarrow> False)"

definition valid_rule :: "json \<Rightarrow> bool" where
  "valid_rule v =
     (case v of
        JObject kvs \<Rightarrow>
          required kvs [''id'', ''level'', ''description''] \<and>
          property_ok kvs ''id'' is_string \<and>
          property_ok kvs ''level'' (\<lambda>x. is_string x \<and> x \<in> set level_enum) \<and>
          property_ok kvs ''description'' is_string \<and>
          property_ok kvs ''pattern'' is_string \<and>
          property_ok kvs ''fix'' valid_fix \<and>
          property_ok kvs ''disabled'' is_boolean
      | _ \<Rightarrow> False)"

text \<open>\<^verbatim>\<open>definitions.languageConfig\<close> (lines 22-33).\<close>

definition valid_languageConfig :: "json \<Rightarrow> bool" where
  "valid_languageConfig v =
     (case v of
        JObject kvs \<Rightarrow>
          required kvs [''rules''] \<and>
          property_ok kvs ''rules''
            (\<lambda>x. case x of JArray xs \<Rightarrow> list_all valid_rule xs | _ \<Rightarrow> False)
      | _ \<Rightarrow> False)"

text \<open>
  The schema itself (lines 5-20): every member of \<^verbatim>\<open>languages\<close> is a language
  configuration (\<^verbatim>\<open>additionalProperties\<close>).
\<close>

definition valid_document :: "json \<Rightarrow> bool" where
  "valid_document v =
     (case v of
        JObject kvs \<Rightarrow>
          required kvs [''version'', ''languages''] \<and>
          property_ok kvs ''version''
            (\<lambda>x. case x of JString s \<Rightarrow> version_pattern s | _ \<Rightarrow> False) \<and>
          property_ok kvs ''languages''
            (\<lambda>x. case x of
                   JObject ls \<Rightarrow>
                     list_all (\<lambda>k. property_ok ls k valid_languageConfig) (map fst ls)
                 | _ \<Rightarrow> False)
      | _ \<Rightarrow> False)"

subsection \<open>Example inputs\<close>

definition example_date :: date where
  "example_date = \<lparr>year = 2024, month = 1, day = 2, hours = 3, minutes = 4, seconds = 5,
     milliseconds = 6\<rparr>"

definition example_template :: RuleTemplate where
  "example_template = \<lparr>template_id = ''web'', name = ''web'', category = ''web'',
     description = ''T'', content = ''T''\<rparr>"

text \<open>A workspace \<^verbatim>\<open>/ws\<close> whose \<^verbatim>\<open>.cursorrules\<close> holds \<^verbatim>\<open>A\<close>, on a host that refuses nothing.\<close>

definition example_world :: world where
  "example_world = \<lparr>files = [''/ws/.cursorrules'' \<mapsto> File ''A''], denied = {},
     workspaceFolders = Some [''/ws''], clock = example_date, notifications = [],
     console = [], editors = []\<rparr>"

text \<open>The same day, 54 seconds later.\<close>

definition later_date :: date where
  "later_date = example_date\<lparr>seconds := 59\<rparr>"

text \<open>Nothing at the target path yet.\<close>

definition fresh_world :: world where
  "fresh_world = example_world\<lparr>files := Map.empty\<rparr>"

text \<open>
  The host refuses to create the backup beside the target (a directory that takes no new
  entries) but lets the existing file be rewritten.
\<close>

definition refusing_world :: world where
  "refusing_world = example_world\<lparr>denied :=
     {OpCopy ''/ws/.cursorrules'' ''/ws/.cursorrules.2024-01-02T03-04-05-006Z.backup''}\<rparr>"

definition refusing_sub_world :: world where
  "refusing_sub_world = example_world\<lparr>
     files := [''/ws/sub/.cursorrules'' \<mapsto> File ''A''],
     denied := {OpCopy ''/ws/sub/.cursorrules''
                  ''/ws/sub/.cursorrules.2024-01-02T03-04-05-006Z.backup''}\<rparr>"

text \<open>An earlier backup already has the name the next one will get.\<close>

definition occupied_world :: world where
  "occupied_world = example_world\<lparr>files :=
     [''/ws/.cursorrules'' \<mapsto> File ''A'',
      ''/ws/.cursorrules.2024-01-02T03-04-05-006Z.backup'' \<mapsto> File ''old'']\<rparr>"

text \<open>The backup directory cannot be created.\<close>

definition unwritable_world :: world where
  "unwritable_world = example_world\<lparr>denied := {OpCreateDirectory ''/ws/.cursorrules-backup''}\<rparr>"

text \<open>
  The template library beside the extension: the template of \<^verbatim>\<open>web\<close> starts with an empty
  line, that of \<^verbatim>\<open>docs\<close> with a title between blanks, ended by carriage return and line
  feed.
\<close>

definition library_world :: world where
  "library_world = example_world\<lparr>files :=
     [''/ext/rules/web/.cursorrules'' \<mapsto> File (CHR 0x0A # ''Hello''),
      ''/ext/rules/docs/.cursorrules'' \<mapsto>
        File (''  # Rules '' @ [CHR 0x0D, CHR 0x0A] @ ''body'')]\<rparr>"

text \<open>The rule and the document of the specification's scenario, for a given level.\<close>

definition example_rule :: "string \<Rightarrow> json" where
  "example_rule level = JObject [(''id'', JString ''r1''), (''level'', JString level),
     (''description'', JString ''x'')]"

definition example_document :: "string \<Rightarrow> json" where
  "example_document level = JObject [(''version'', JString ''1.0.0''),
     (''languages'', JObject [(''ts'', JObject [(''rules'', JArray [example_rule level])])])]"

subsection \<open>Notions used in the statements\<close>

text \<open>
  The path a save writes to (lines 100-106): the URI given, else \<^verbatim>\<open>.cursorrules\<close> in the
  first workspace folder; \<open>None\<close> when the method throws before it has one.
\<close>

definition target_of :: "world \<Rightarrow> path option \<Rightarrow> path option" where
  "target_of w targetUri =
     (case targetUri of
        Some t \<Rightarrow> Some t
      | None \<Rightarrow> (case workspaceFolders w of
                   Some (f # fs) \<Rightarrow> Some (joinPath f ''.cursorrules'')
                 | _ \<Rightarrow> None))"

text \<open>A character of one byte, which stands for itself in UTF-8.\<close>

definition is_ascii :: "char \<Rightarrow> bool" where
  "is_ascii c = (of_char c < (128::nat))"

text \<open>
  The words of the specification for the description of a template: the first non-empty
  line of the raw content.
\<close>

definition spec_first_nonempty_line :: "string \<Rightarrow> string" where
  "spec_first_nonempty_line s =
     (case filter (\<lambda>l. l \<noteq> []) (split_on CHR 0x0A s) of [] \<Rightarrow> [] | l # ls \<Rightarrow> l)"

text \<open>
  A date that \<^verbatim>\<open>toISOString\<close> writes in the plain format: a year of at most four digits,
  every other field within its width.
\<close>

definition four_digit_year :: "date \<Rightarrow> bool" where
  "four_digit_year d =
     (year d \<le> 9999 \<and> month d < 100 \<and> day d < 100 \<and> hours d < 100 \<and> minutes d < 100
      \<and> seconds d < 100 \<and> milliseconds d < 1000)"

text \<open>Dates in chronological order: the fields compared from the year down.\<close>

definition date_key :: "date \<Rightarrow> nat \<times> nat \<times> nat \<times> nat \<times> nat \<times> nat \<times> nat" where
  "date_key d = (year d, month d, day d, hours d, minutes d, seconds d, milliseconds d)"

section \<open>Properties\<close>

subsection \<open>The paths of the examples\<close>

lemma ex_sibling:
  "backup_uri example_date ''/ws/.cursorrules''
   = ''/ws/.cursorrules.2024-01-02T03-04-05-006Z.backup''"
  by code_simp

lemma ex_sub_sibling:
  "backup_uri example_date ''/ws/sub/.cursorrules''
   = ''/ws/sub/.cursorrules.2024-01-02T03-04-05-006Z.backup''"
  by code_simp

lemma ex_target: "joinPath ''/ws'' ''.cursorrules'' = ''/ws/.cursorrules''"
  by code_simp

lemma ex_backupdir: "joinPath ''/ws'' ''.cursorrules-backup'' = ''/ws/.cursorrules-backup''"
  by code_simp

lemma ex_last:
  "last (split_on CHR ''/'' ''/ws/.cursorrules.2024-01-02T03-04-05-006Z.backup'')
   = ''.cursorrules.2024-01-02T03-04-05-006Z.backup''"
  by code_simp

lemma ex_new:
  "joinPath ''/ws/.cursorrules-backup'' ''.cursorrules.2024-01-02T03-04-05-006Z.backup''
   = ''/ws/.cursorrules-backup/.cursorrules.2024-01-02T03-04-05-006Z.backup''"
  by code_simp

lemmas ex_paths = ex_sibling ex_sub_sibling ex_target ex_backupdir ex_last ex_new

lemmas save_defs = saveTemplateToWorkspace_def existing_file_block_def fs_stat_def fs_copy_def
  is_below_def moveToBackupDirectory_def moveToBackupDirectory_try_def ensureBackupDirectory_def
  fs_createDirectory_def fs_delete_def fs_writeFile_def convertTemplateContent_def
  showInformationMessage_def openTextDocument_def showTextDocument_def console_error_def
  save_error_def Let_def

subsection \<open>What a step leaves alone\<close>

lemma fs_copy_frame: "fs_copy w s d ov = Inr w' \<Longrightarrow> \<exists>f. w' = w\<lparr>files := f\<rparr>"
  unfolding fs_copy_def Let_def
  by (cases "files w s") (auto split: if_splits node.splits intro: exI[of _ "files w"])

lemma fs_delete_frame: "fs_delete w p = Inr w' \<Longrightarrow> \<exists>f. w' = w\<lparr>files := f\<rparr>"
  unfolding fs_delete_def
  by (auto split: if_splits option.splits node.splits)

lemma fs_createDirectory_frame: "fs_createDirectory w p = Inr w' \<Longrightarrow> \<exists>f. w' = w\<lparr>files := f\<rparr>"
  unfolding fs_createDirectory_def
  by (auto split: if_splits option.splits node.splits intro: exI[of _ "files w"])

lemma fs_writeFile_frame: "fs_writeFile w p c = Inr w' \<Longrightarrow> \<exists>f. w' = w\<lparr>files := f\<rparr>"
  unfolding fs_writeFile_def
  by (auto split: if_splits option.splits node.splits)

lemma ensureBackupDirectory_frame:
  "ensureBackupDirectory w u = (r, w') \<Longrightarrow> \<exists>f. w' = w\<lparr>files := f\<rparr>"
  unfolding ensureBackupDirectory_def Let_def
  by (auto split: sum.splits dest: fs_createDirectory_frame intro: exI[of _ "files w"])

lemma moveToBackupDirectory_try_frame:
  assumes "moveToBackupDirectory_try w b = (r, w')"
  shows "\<exists>f. w' = w\<lparr>files := f\<rparr>"
proof (cases "case workspaceFolders w of None \<Rightarrow> None | Some [] \<Rightarrow> None | Some (f # fs) \<Rightarrow> Some f")
  case None
  with assms show ?thesis
    by (auto simp: moveToBackupDirectory_try_def intro: exI[of _ "files w"])
next
  case (Some f)
  obtain r1 w1 where e: "ensureBackupDirectory w f = (r1, w1)"
    by (cases "ensureBackupDirectory w f")
  then obtain f1 where w1: "w1 = w\<lparr>files := f1\<rparr>"
    using ensureBackupDirectory_frame by blast
  show ?thesis
  proof (cases r1)
    case (Inl e1)
    with assms Some e w1 show ?thesis by (auto simp: moveToBackupDirectory_try_def)
  next
    case (Inr d)
    with assms Some e have
      "(let fileName = last (split_on CHR ''/'' b)
        in if fileName = [] then (Inl (Error ''Invalid backup file path''), w1)
           else
             let newBackupUri = joinPath d fileName
             in (case fs_copy w1 b newBackupUri False of
                   Inl e \<Rightarrow> (Inl e, w1)
                 | Inr w2 \<Rightarrow>
                     (case fs_delete w2 b of
                        Inl e \<Rightarrow> (Inl e, w2)
                      | Inr w3 \<Rightarrow> (Inr (), w3)))) = (r, w')"
      by (simp add: moveToBackupDirectory_try_def)
    then show ?thesis using w1
      by (auto simp: Let_def split: if_splits sum.splits dest!: fs_copy_frame fs_delete_frame)
  qed
qed

lemma moveToBackupDirectory_notifications:
  "notifications (moveToBackupDirectory w b) = notifications w"
proof -
  obtain r w' where t: "moveToBackupDirectory_try w b = (r, w')"
    by (cases "moveToBackupDirectory_try w b")
  then obtain f where "w' = w\<lparr>files := f\<rparr>"
    using moveToBackupDirectory_try_frame by blast
  with t show ?thesis
    by (auto simp: moveToBackupDirectory_def console_error_def split: sum.splits error.splits)
qed

lemma existing_file_block_notifications:
  "existing_file_block w choice target = Return w' \<or> existing_file_block w choice target = Proceed w'
   \<Longrightarrow> notifications w' = notifications w"
  unfolding existing_file_block_def Let_def
  by (auto split: sum.splits if_splits simp: moveToBackupDirectory_notifications dest!: fs_copy_frame)

subsection \<open>What copying and a failed move keep\<close>

lemma fs_copy_file:
  assumes "fs_copy w s d ov = Inr w1" and "files w s = Some (File c)" and "s \<noteq> d"
  shows "files w1 d = Some (File c) \<and> files w1 s = Some (File c)"
  using assms unfolding fs_copy_def Let_def
  by (auto split: if_splits)

lemma fs_copy_file_no_overwrite:
  assumes "fs_copy w s d False = Inr w1" and "files w s = Some (File c)" and "s \<noteq> d"
  shows "files w1 = (files w)(d \<mapsto> File c) \<and> files w d = None"
  using assms unfolding fs_copy_def Let_def
  by (auto split: if_splits)

lemma ensureBackupDirectory_preserves:
  assumes "ensureBackupDirectory w f = (r, w1)" and "files w p = Some n"
  shows "files w1 p = Some n"
  using assms unfolding ensureBackupDirectory_def Let_def fs_createDirectory_def
  by (auto split: sum.splits if_splits option.splits node.splits)

lemma moveToBackupDirectory_try_failed:
  assumes t: "moveToBackupDirectory_try w b = (Inl e, w')"
    and b: "files w b = Some (File d)" and p: "files w p = Some n"
  shows "files w' p = Some n"
proof (cases "case workspaceFolders w of None \<Rightarrow> None | Some [] \<Rightarrow> None | Some (f # fs) \<Rightarrow> Some f")
  case None
  with t p show ?thesis by (simp add: moveToBackupDirectory_try_def)
next
  case (Some f)
  obtain r1 w1 where e: "ensureBackupDirectory w f = (r1, w1)"
    by (cases "ensureBackupDirectory w f")
  have p1: "files w1 p = Some n" and b1: "files w1 b = Some (File d)"
    using ensureBackupDirectory_preserves [OF e] p b by auto
  show ?thesis
  proof (cases r1)
    case (Inl e1)
    with t Some e p1 show ?thesis by (simp add: moveToBackupDirectory_try_def)
  next
    case (Inr dir)
    let ?new = "joinPath dir (last (split_on CHR ''/'' b))"
    show ?thesis
    proof (cases "last (split_on CHR ''/'' b) = []")
      case True
      with t Some e Inr p1 show ?thesis by (simp add: moveToBackupDirectory_try_def)
    next
      case False
      show ?thesis
      proof (cases "fs_copy w1 b ?new False")
        case (Inl e2)
        with t Some e Inr False p1 show ?thesis by (simp add: moveToBackupDirectory_try_def)
      next
        case c: (Inr w2)
        have p2: "files w2 p = Some n"
        proof (cases "b = ?new")
          case True
          with c b1 have "w2 = w1" by (simp add: fs_copy_def split: if_splits)
          with p1 show ?thesis by simp
        next
          case False
          from fs_copy_file_no_overwrite [OF c b1 False] p1 show ?thesis by auto
        qed
        from t Some e Inr False c have "w' = w2"
          by (auto simp: moveToBackupDirectory_try_def Let_def split: sum.splits)
        with p2 show ?thesis by simp
      qed
    qed
  qed
qed


lemma moveToBackupDirectory_failed:
  assumes t: "moveToBackupDirectory_try w b = (Inl e, w')"
    and b: "files w b = Some (File d)" and p: "files w p = Some n"
  shows "files (moveToBackupDirectory w b) p = Some n \<and> denied (moveToBackupDirectory w b) = denied w"
proof -
  from moveToBackupDirectory_try_frame [OF t] obtain f where "w' = w\<lparr>files := f\<rparr>" by blast
  then have "denied w' = denied w" by simp
  moreover have "files w' p = Some n" using moveToBackupDirectory_try_failed [OF t b p] .
  ultimately show ?thesis using t
    by (cases e) (simp add: moveToBackupDirectory_def console_error_def)
qed

subsection \<open>Content normalisation\<close>

text \<open>
  C9. The content conversion is defined on every string and idempotent; it is the
  identity, and whenever a save gets as far as its success message, the target file holds
  the template's raw content.
\<close>

theorem convertTemplateContent_identity_saved:
  "convertTemplateContent (convertTemplateContent s) = convertTemplateContent s
   \<and> convertTemplateContent s = s
   \<and> (saveTemplateToWorkspace w choice t (Some target) = (r, w')
        \<and> notifications w' \<noteq> notifications w
      \<longrightarrow> files w' target = Some (File (content t)))"
proof (intro conjI impI)
  assume a: "saveTemplateToWorkspace w choice t (Some target) = (r, w')
    \<and> notifications w' \<noteq> notifications w"
  show "files w' target = Some (File (content t))"
  proof (cases "existing_file_block w choice target")
    case (Return w1)
    then have "notifications w1 = notifications w"
      using existing_file_block_notifications by blast
    with a Return show ?thesis by (simp add: saveTemplateToWorkspace_def)
  next
    case (Proceed w1)
    then have n1: "notifications w1 = notifications w"
      using existing_file_block_notifications by blast
    show ?thesis
    proof (cases "fs_writeFile w1 target (content t)")
      case (Inl e)
      with a Proceed n1 show ?thesis
        by (simp add: saveTemplateToWorkspace_def convertTemplateContent_def)
    next
      case (Inr w2)
      then have f2: "files w2 target = Some (File (content t))"
        by (auto simp: fs_writeFile_def split: if_splits option.splits node.splits)
      from a Proceed Inr show ?thesis
        by (auto simp: saveTemplateToWorkspace_def convertTemplateContent_def Let_def f2
              showInformationMessage_def showTextDocument_def
            split: sum.splits if_splits)
    qed
  qed
qed (simp_all add: convertTemplateContent_def)

theorem convertTemplateContent_identity_saved_witness:
  "saveTemplateToWorkspace fresh_world None example_template (Some ''/ws/.cursorrules'')
     = (Inr (), fresh_world\<lparr>files := [''/ws/.cursorrules'' \<mapsto> File ''T''],
          notifications := [''Template saved successfully''],
          editors := [''/ws/.cursorrules'']\<rparr>)
   \<and> notifications (fresh_world\<lparr>files := [''/ws/.cursorrules'' \<mapsto> File ''T''],
          notifications := [''Template saved successfully''],
          editors := [''/ws/.cursorrules'']\<rparr>) \<noteq> notifications fresh_world
   \<and> files (fresh_world\<lparr>files := [''/ws/.cursorrules'' \<mapsto> File ''T''],
          notifications := [''Template saved successfully''],
          editors := [''/ws/.cursorrules'']\<rparr>) ''/ws/.cursorrules''
       = Some (File (content example_template))"
proof -
  let ?w' = "fresh_world\<lparr>files := [''/ws/.cursorrules'' \<mapsto> File ''T''],
          notifications := [''Template saved successfully''],
          editors := [''/ws/.cursorrules'']\<rparr>"
  have s: "saveTemplateToWorkspace fresh_world None example_template (Some ''/ws/.cursorrules'')
     = (Inr (), ?w')"
    by (simp add: fresh_world_def example_world_def example_template_def save_defs)
  have n: "notifications ?w' \<noteq> notifications fresh_world"
    by (simp add: fresh_world_def example_world_def)
  from convertTemplateContent_identity_saved
    [of "content example_template" fresh_world None example_template "''/ws/.cursorrules''"
      "Inr ()" ?w'] s n
  show ?thesis by simp
qed

subsection \<open>Declining the replacement\<close>

text \<open>
  C4. When the target path holds a file and the user answers the prompt with Cancel, the
  save ends as a no-op: it returns normally, not with an error, and the world is the one it
  started in, so the target's content, the backup directory and every other path are
  unchanged, no backup exists that did not before, and no success message is shown.
\<close>

theorem cancel_is_noop:
  assumes "target_of w targetUri = Some target"
    and "files w target = Some (File d)" and "OpStat target \<notin> denied w"
  shows "saveTemplateToWorkspace w (Some ''Cancel'') t targetUri = (Inr (), w)"
  using assms
  by (auto simp: target_of_def saveTemplateToWorkspace_def existing_file_block_def fs_stat_def
      split: option.splits list.splits)

theorem cancel_is_noop_witness:
  "target_of example_world None = Some ''/ws/.cursorrules''
   \<and> files example_world ''/ws/.cursorrules'' = Some (File ''A'')
   \<and> OpStat ''/ws/.cursorrules'' \<notin> denied example_world
   \<and> saveTemplateToWorkspace example_world (Some ''Cancel'') example_template None
       = (Inr (), example_world)"
proof -
  have 1: "target_of example_world None = Some ''/ws/.cursorrules''"
    by (simp add: target_of_def example_world_def ex_target)
  have 2: "files example_world ''/ws/.cursorrules'' = Some (File ''A'')"
    by (simp add: example_world_def)
  have 3: "OpStat ''/ws/.cursorrules'' \<notin> denied example_world"
    by (simp add: example_world_def)
  from cancel_is_noop [OF 1 2 3, of example_template] 1 2 3 show ?thesis by simp
qed

text \<open>
  C10. When the target file exists, every answer to the prompt other than exactly
  \<^verbatim>\<open>Replace\<close>, a dismissed prompt (\<open>None\<close>) among them, is a cancellation: the save
  returns with the world as it was, so no backup is made and the target is not written.
\<close>

theorem not_replace_is_cancel:
  assumes "target_of w targetUri = Some target"
    and "files w target = Some (File d)" and "OpStat target \<notin> denied w"
    and "choice \<noteq> Some ''Replace''"
  shows "saveTemplateToWorkspace w choice t targetUri = (Inr (), w)"
  using assms
  by (auto simp: target_of_def saveTemplateToWorkspace_def existing_file_block_def fs_stat_def
      split: option.splits list.splits)

theorem not_replace_is_cancel_witness:
  "target_of example_world (Some ''/ws/.cursorrules'') = Some ''/ws/.cursorrules''
   \<and> files example_world ''/ws/.cursorrules'' = Some (File ''A'')
   \<and> OpStat ''/ws/.cursorrules'' \<notin> denied example_world
   \<and> (None :: string option) \<noteq> Some ''Replace''
   \<and> saveTemplateToWorkspace example_world None example_template (Some ''/ws/.cursorrules'')
       = (Inr (), example_world)"
proof -
  have 1: "target_of example_world (Some ''/ws/.cursorrules'') = Some ''/ws/.cursorrules''"
    by (simp add: target_of_def)
  have 2: "files example_world ''/ws/.cursorrules'' = Some (File ''A'')"
    by (simp add: example_world_def)
  have 3: "OpStat ''/ws/.cursorrules'' \<notin> denied example_world"
    by (simp add: example_world_def)
  have 4: "(None :: string option) \<noteq> Some ''Replace''"
    by simp
  from not_replace_is_cancel [OF 1 2 3 4, of example_template] 1 2 3 show ?thesis by simp
qed

subsection \<open>A backup that fails\<close>

text \<open>
  C1, at an input where it fails. The target holds \<^verbatim>\<open>A\<close>, the user chooses Replace and
  the host refuses the copy to the sibling path. The \<^verbatim>\<open>catch\<close> of line 135, written for
  a target that does not exist, takes the refusal too; the write of line 140 follows. The
  save returns normally, the target holds the template, and no path holds \<^verbatim>\<open>A\<close> any more.
\<close>

theorem save_loses_document_when_copy_refused:
  "files refusing_world ''/ws/.cursorrules'' = Some (File ''A'')
   \<and> fst (saveTemplateToWorkspace refusing_world (Some ''Replace'') example_template None)
       = Inr ()
   \<and> files (snd (saveTemplateToWorkspace refusing_world (Some ''Replace'') example_template None))
       = [''/ws/.cursorrules'' \<mapsto> File ''T'']"
  by (simp add: refusing_world_def example_world_def example_template_def save_defs ex_paths)

text \<open>
  C2, at an input where it fails. The copy that makes the backup fails, and the save
  neither aborts nor leaves the target alone: it writes the new content, shows the success
  message and returns normally.
\<close>

theorem write_follows_failed_backup:
  "fs_copy refusing_sub_world ''/ws/sub/.cursorrules''
       (backup_uri (clock refusing_sub_world) ''/ws/sub/.cursorrules'') True
     = Inl (Error ''NoPermissions'')
   \<and> fst (saveTemplateToWorkspace refusing_sub_world (Some ''Replace'') example_template
             (Some ''/ws/sub/.cursorrules'')) = Inr ()
   \<and> files (snd (saveTemplateToWorkspace refusing_sub_world (Some ''Replace'') example_template
             (Some ''/ws/sub/.cursorrules''))) ''/ws/sub/.cursorrules'' = Some (File ''T'')
   \<and> notifications (snd (saveTemplateToWorkspace refusing_sub_world (Some ''Replace'')
             example_template (Some ''/ws/sub/.cursorrules''))) = [''Template saved successfully'']"
  by (simp add: refusing_sub_world_def example_world_def example_template_def save_defs ex_paths)

subsection \<open>The copy beside the target\<close>

text \<open>
  C3 as stated fails: line 131 copies with \<^verbatim>\<open>overwrite: true\<close>. Here a file \<^verbatim>\<open>old\<close>
  already has the sibling name; the save succeeds, the backup directory gets the copy of
  the target, and \<^verbatim>\<open>old\<close> is nowhere in the store afterwards.
\<close>

theorem existing_backup_is_clobbered:
  "files occupied_world ''/ws/.cursorrules.2024-01-02T03-04-05-006Z.backup'' = Some (File ''old'')
   \<and> fst (saveTemplateToWorkspace occupied_world (Some ''Replace'') example_template None) = Inr ()
   \<and> files (snd (saveTemplateToWorkspace occupied_world (Some ''Replace'') example_template None))
      = [''/ws/.cursorrules'' \<mapsto> File ''T'',
         ''/ws/.cursorrules-backup'' \<mapsto> Directory,
         ''/ws/.cursorrules-backup/.cursorrules.2024-01-02T03-04-05-006Z.backup'' \<mapsto> File ''A'']"
  by (auto simp add: occupied_world_def example_world_def example_template_def save_defs ex_paths
        fun_eq_iff)


text \<open>
  C3, amended. The copy to the sibling path is made with overwriting switched on: when a
  file already has that name (and the host does not refuse the copy), the copy succeeds,
  the file there and all below it are removed, the sibling path then holds the target's
  bytes, and the save goes on to the move.
\<close>

theorem sibling_copy_replaces_existing:
  assumes tgt: "files w target = Some (File d)" and st: "OpStat target \<notin> denied w"
    and occ: "files w (backup_uri (clock w) target) = Some (File old)"
    and ne: "backup_uri (clock w) target \<noteq> target"
    and nd: "OpCopy target (backup_uri (clock w) target) \<notin> denied w"
    and nu: "\<not> is_below (backup_uri (clock w) target) target"
      "\<not> is_below target (backup_uri (clock w) target)"
  shows "fs_copy w target (backup_uri (clock w) target) True
           = Inr (w\<lparr>files := (\<lambda>p. if p = backup_uri (clock w) target \<or> is_below (backup_uri (clock w) target) p
                                   then None else files w p)
                              (backup_uri (clock w) target \<mapsto> File d)\<rparr>)
       \<and> existing_file_block w (Some ''Replace'') target
           = Proceed (moveToBackupDirectory
               (w\<lparr>files := (\<lambda>p. if p = backup_uri (clock w) target \<or> is_below (backup_uri (clock w) target) p
                                   then None else files w p)
                              (backup_uri (clock w) target \<mapsto> File d)\<rparr>)
               (backup_uri (clock w) target))"
proof -
  have c: "fs_copy w target (backup_uri (clock w) target) True
           = Inr (w\<lparr>files := (\<lambda>p. if p = backup_uri (clock w) target \<or> is_below (backup_uri (clock w) target) p
                                   then None else files w p)
                              (backup_uri (clock w) target \<mapsto> File d)\<rparr>)"
    using tgt occ ne nd nu by (auto simp: fs_copy_def)
  show ?thesis using tgt st
    by (simp add: c existing_file_block_def fs_stat_def Let_def)
qed

theorem sibling_copy_replaces_existing_witness:
  "files occupied_world ''/ws/.cursorrules.2024-01-02T03-04-05-006Z.backup'' = Some (File ''old'')
   \<and> existing_file_block occupied_world (Some ''Replace'') ''/ws/.cursorrules''
      = Proceed (moveToBackupDirectory
          (occupied_world\<lparr>files := [''/ws/.cursorrules'' \<mapsto> File ''A'',
             ''/ws/.cursorrules.2024-01-02T03-04-05-006Z.backup'' \<mapsto> File ''A'']\<rparr>)
          ''/ws/.cursorrules.2024-01-02T03-04-05-006Z.backup'')"
proof -
  have c: "clock occupied_world = example_date"
    by (simp add: occupied_world_def example_world_def)
  have 1: "files occupied_world ''/ws/.cursorrules'' = Some (File ''A'')"
    by (simp add: occupied_world_def example_world_def)
  have 2: "OpStat ''/ws/.cursorrules'' \<notin> denied occupied_world"
    by (simp add: occupied_world_def example_world_def)
  have 3: "files occupied_world (backup_uri (clock occupied_world) ''/ws/.cursorrules'')
      = Some (File ''old'')"
    by (simp add: c ex_sibling) (simp add: occupied_world_def example_world_def)
  have 4: "backup_uri (clock occupied_world) ''/ws/.cursorrules'' \<noteq> ''/ws/.cursorrules''"
    by (simp add: c ex_sibling)
  have 5: "OpCopy ''/ws/.cursorrules'' (backup_uri (clock occupied_world) ''/ws/.cursorrules'')
      \<notin> denied occupied_world"
    by (simp add: occupied_world_def example_world_def)
  have 6: "\<not> is_below (backup_uri (clock occupied_world) ''/ws/.cursorrules'') ''/ws/.cursorrules''"
    "\<not> is_below ''/ws/.cursorrules'' (backup_uri (clock occupied_world) ''/ws/.cursorrules'')"
    by (simp_all add: c ex_sibling is_below_def)
  have m: "(\<lambda>p. if p = ''/ws/.cursorrules.2024-01-02T03-04-05-006Z.backup''
                   \<or> is_below ''/ws/.cursorrules.2024-01-02T03-04-05-006Z.backup'' p
                then None else files occupied_world p)
             (''/ws/.cursorrules.2024-01-02T03-04-05-006Z.backup'' \<mapsto> File ''A'')
         = [''/ws/.cursorrules'' \<mapsto> File ''A'',
             ''/ws/.cursorrules.2024-01-02T03-04-05-006Z.backup'' \<mapsto> File ''A'']"
    by (rule ext) (simp add: occupied_world_def example_world_def is_below_def)
  from sibling_copy_replaces_existing [OF 1 2 3 4 5 6] 3
  show ?thesis by (simp add: c ex_sibling m)
qed


subsection \<open>A move that fails\<close>

text \<open>
  C5. The target is a file, the user chooses Replace and the copy to the sibling path
  succeeds. If the move into the backup directory then fails, at any of its steps, the
  sibling file is still there with the target's old bytes when \<^verbatim>\<open>moveToBackupDirectory\<close>
  returns, and the save does not fail for it: unless the host refuses the write or the
  opening of the target, it returns normally, with the template's content at the target and
  the backup still at the sibling path.
\<close>

theorem failed_move_keeps_backup:
  assumes tgt: "files w target = Some (File d)" and st: "OpStat target \<notin> denied w"
    and ne: "backup_uri (clock w) target \<noteq> target"
    and cp: "fs_copy w target (backup_uri (clock w) target) True = Inr w1"
    and mv: "moveToBackupDirectory_try w1 (backup_uri (clock w) target) = (Inl e, w2)"
    and wr: "OpWriteFile target \<notin> denied w"
    and op: "OpOpenTextDocument target \<notin> denied w"
    and sh: "OpShowTextDocument target \<notin> denied w"
  shows "files (moveToBackupDirectory w1 (backup_uri (clock w) target)) (backup_uri (clock w) target)
           = Some (File d)
       \<and> fst (saveTemplateToWorkspace w (Some ''Replace'') t (Some target)) = Inr ()
       \<and> files (snd (saveTemplateToWorkspace w (Some ''Replace'') t (Some target)))
            (backup_uri (clock w) target) = Some (File d)
       \<and> files (snd (saveTemplateToWorkspace w (Some ''Replace'') t (Some target))) target
            = Some (File (content t))"
proof -
  let ?b = "backup_uri (clock w) target"
  let ?m = "moveToBackupDirectory w1 ?b"
  from fs_copy_file [OF cp tgt] ne
  have b1: "files w1 ?b = Some (File d)" and t1: "files w1 target = Some (File d)" by auto
  from fs_copy_frame [OF cp] obtain f where "w1 = w\<lparr>files := f\<rparr>" by blast
  then have d1: "denied w1 = denied w" by simp
  from moveToBackupDirectory_failed [OF mv b1 b1]
  have bm: "files ?m ?b = Some (File d)" and dm: "denied ?m = denied w" using d1 by auto
  from moveToBackupDirectory_failed [OF mv b1 t1]
  have tm: "files ?m target = Some (File d)" by simp
  have blk: "existing_file_block w (Some ''Replace'') target = Proceed ?m"
    using tgt st cp by (simp add: existing_file_block_def fs_stat_def Let_def)
  have wrt: "fs_writeFile ?m target (content t) = Inr (?m\<lparr>files := (files ?m)(target \<mapsto> File (content t))\<rparr>)"
    using wr dm tm by (simp add: fs_writeFile_def)
  have sv: "saveTemplateToWorkspace w (Some ''Replace'') t (Some target)
      = (Inr (), ?m\<lparr>files := (files ?m)(target \<mapsto> File (content t)),
            notifications := notifications ?m @ [''Template saved successfully''],
            editors := editors ?m @ [target]\<rparr>)"
    using op sh dm
    by (simp add: saveTemplateToWorkspace_def blk wrt convertTemplateContent_def
        showInformationMessage_def openTextDocument_def showTextDocument_def)
  show ?thesis using bm ne by (simp add: sv)
qed

theorem failed_move_keeps_backup_witness:
  "fst (saveTemplateToWorkspace unwritable_world (Some ''Replace'') example_template
          (Some ''/ws/.cursorrules'')) = Inr ()
   \<and> files (snd (saveTemplateToWorkspace unwritable_world (Some ''Replace'') example_template
          (Some ''/ws/.cursorrules'')))
        ''/ws/.cursorrules.2024-01-02T03-04-05-006Z.backup'' = Some (File ''A'')
   \<and> files (snd (saveTemplateToWorkspace unwritable_world (Some ''Replace'') example_template
          (Some ''/ws/.cursorrules''))) ''/ws/.cursorrules'' = Some (File ''T'')"
proof -
  let ?w1 = "unwritable_world\<lparr>files := [''/ws/.cursorrules'' \<mapsto> File ''A'',
      ''/ws/.cursorrules.2024-01-02T03-04-05-006Z.backup'' \<mapsto> File ''A'']\<rparr>"
  have c: "clock unwritable_world = example_date"
    by (simp add: unwritable_world_def example_world_def)
  have 1: "files unwritable_world ''/ws/.cursorrules'' = Some (File ''A'')"
    by (simp add: unwritable_world_def example_world_def)
  have 2: "OpStat ''/ws/.cursorrules'' \<notin> denied unwritable_world"
    by (simp add: unwritable_world_def example_world_def)
  have 3: "backup_uri (clock unwritable_world) ''/ws/.cursorrules'' \<noteq> ''/ws/.cursorrules''"
    by (simp add: c ex_sibling)
  have 4: "fs_copy unwritable_world ''/ws/.cursorrules''
      (backup_uri (clock unwritable_world) ''/ws/.cursorrules'') True = Inr ?w1"
    by (simp add: c ex_sibling fs_copy_def is_below_def unwritable_world_def example_world_def)
  have 5: "moveToBackupDirectory_try ?w1 (backup_uri (clock unwritable_world) ''/ws/.cursorrules'')
      = (Inl (Error ''NoPermissions''), ?w1)"
    by (simp add: c ex_paths moveToBackupDirectory_try_def ensureBackupDirectory_def fs_stat_def
        fs_createDirectory_def unwritable_world_def example_world_def)
  have 6: "OpWriteFile ''/ws/.cursorrules'' \<notin> denied unwritable_world"
    "OpOpenTextDocument ''/ws/.cursorrules'' \<notin> denied unwritable_world"
    "OpShowTextDocument ''/ws/.cursorrules'' \<notin> denied unwritable_world"
    by (simp_all add: unwritable_world_def example_world_def)
  from failed_move_keeps_backup [OF 1 2 3 4 5 6, of example_template]
  show ?thesis by (simp add: c ex_sibling example_template_def)
qed


subsection \<open>Templates of a category\<close>

lemma split_on_first: "split_on c s = takeWhile (\<lambda>x. x \<noteq> c) s # tl (split_on c s)"
  by (induction s) (auto split: list.splits)

lemma first_piece:
  "(case split_on c s of [] \<Rightarrow> [] | l # ls \<Rightarrow> l) = takeWhile (\<lambda>x. x \<noteq> c) s"
  by (subst split_on_first) simp

text \<open>On ASCII text only the white space of one byte can be met.\<close>

lemma strip_plain:
  assumes "\<And>a b. a \<in> set s \<Longrightarrow> b \<in> set s \<Longrightarrow> \<not> p2 a b"
    and "\<And>a b c. a \<in> set s \<Longrightarrow> b \<in> set s \<Longrightarrow> c \<in> set s \<Longrightarrow> \<not> p3 a b c"
  shows "strip p1 p2 p3 s = dropWhile p1 s"
  using assms
  by (induction p1 p2 p3 s rule: strip.induct) auto

lemma ascii_not_2: "is_ascii a \<or> is_ascii b \<Longrightarrow> \<not> white_space_2 a b"
  by (auto simp: is_ascii_def white_space_2_def)

lemma ascii_not_3: "is_ascii a \<or> is_ascii c \<Longrightarrow> \<not> white_space_3 a b c"
  by (auto simp: is_ascii_def white_space_3_def)

lemma trim_ascii:
  assumes "list_all is_ascii s"
  shows "trim s = rev (dropWhile white_space_1 (rev (dropWhile white_space_1 s)))"
proof -
  from assms have a: "\<And>x. x \<in> set s \<Longrightarrow> is_ascii x" by (simp add: list_all_iff)
  have 1: "strip white_space_1 white_space_2 white_space_3 s = dropWhile white_space_1 s"
    by (rule strip_plain) (auto simp: a ascii_not_2 ascii_not_3)
  have b: "\<And>x. x \<in> set (rev (dropWhile white_space_1 s)) \<Longrightarrow> is_ascii x"
    using a by (auto dest: set_dropWhileD)
  have 2: "strip white_space_1 (\<lambda>a b. white_space_2 b a) (\<lambda>a b c. white_space_3 c b a)
      (rev (dropWhile white_space_1 s)) = dropWhile white_space_1 (rev (dropWhile white_space_1 s))"
    by (rule strip_plain) (auto simp: b ascii_not_2 ascii_not_3)
  show ?thesis by (simp add: trim_def 1 2)
qed

lemmas trim_defs = trim_def white_space_1_def white_space_2_def white_space_3_def

lemma ex_rules: "rulesPath (new_TemplateService ''/ext/vscode-extension'') = ''/ext/rules''"
  unfolding new_TemplateService_def by simp code_simp

lemma ex_web: "path_join (path_join ''/ext/rules'' ''web'') ''.cursorrules'' = ''/ext/rules/web/.cursorrules''"
  by code_simp

lemma ex_docs: "path_join (path_join ''/ext/rules'' ''docs'') ''.cursorrules'' = ''/ext/rules/docs/.cursorrules''"
  by code_simp

lemma ex_go: "path_join (path_join ''/ext/rules'' ''go'') ''.cursorrules'' = ''/ext/rules/go/.cursorrules''"
  by code_simp

text \<open>
  C6 as stated fails: the description is taken from the first line, also when that line
  is empty. For the content \<^verbatim>\<open>\nHello\<close> the code gives the empty description, while the
  first non-empty line is \<^verbatim>\<open>Hello\<close>.
\<close>

theorem description_not_first_nonempty_line:
  "getTemplatesInCategory (new_TemplateService ''/ext/vscode-extension'') library_world ''web''
     = Inr [\<lparr>template_id = ''web'', name = ''web'', category = ''web'',
             description = [], content = CHR 0x0A # ''Hello''\<rparr>]
   \<and> spec_first_nonempty_line (CHR 0x0A # ''Hello'') = ''Hello''"
  by (simp add: getTemplatesInCategory_def ex_rules ex_web readFile_def library_world_def Let_def
      example_world_def trim_defs spec_first_nonempty_line_def)

text \<open>
  C6, amended. Listing the templates of a category returns exactly one template whose id,
  name and category are the category name and whose content is the raw content of the
  category's \<^verbatim>\<open>.cursorrules\<close> file. When the first line of that content (the text before
  the first line feed) is ASCII text, the description is that line with the white space at
  both ends removed (tab, line feed, vertical tab, form feed, carriage return, space), so
  it is empty when the line is blank. When the file is missing, the operation fails with
  an error.
\<close>

theorem description_is_first_line_trimmed:
  "(readFile w (path_join (path_join (rulesPath this) cat) ''.cursorrules'') = Inr c
      \<longrightarrow> (\<exists>d. getTemplatesInCategory this w cat
            = Inr [\<lparr>template_id = cat, name = cat, category = cat, description = d,
                    content = c\<rparr>]))
   \<and> (readFile w (path_join (path_join (rulesPath this) cat) ''.cursorrules'') = Inr c
        \<and> list_all is_ascii (takeWhile (\<lambda>x. x \<noteq> CHR 0x0A) c)
      \<longrightarrow> getTemplatesInCategory this w cat
          = Inr [\<lparr>template_id = cat, name = cat, category = cat,
                  description =
                    rev (dropWhile white_space_1
                      (rev (dropWhile white_space_1 (takeWhile (\<lambda>x. x \<noteq> CHR 0x0A) c)))),
                  content = c\<rparr>])
   \<and> (files w (path_join (path_join (rulesPath this) cat) ''.cursorrules'') = None
      \<longrightarrow> isl (getTemplatesInCategory this w cat))"
proof (intro conjI impI)
  assume "readFile w (path_join (path_join (rulesPath this) cat) ''.cursorrules'') = Inr c"
  then show "\<exists>d. getTemplatesInCategory this w cat
      = Inr [\<lparr>template_id = cat, name = cat, category = cat, description = d, content = c\<rparr>]"
    by (simp add: getTemplatesInCategory_def Let_def)
next
  assume a: "readFile w (path_join (path_join (rulesPath this) cat) ''.cursorrules'') = Inr c
    \<and> list_all is_ascii (takeWhile (\<lambda>x. x \<noteq> CHR 0x0A) c)"
  then have "trim (takeWhile (\<lambda>x. x \<noteq> CHR 0x0A) c)
      = rev (dropWhile white_space_1
          (rev (dropWhile white_space_1 (takeWhile (\<lambda>x. x \<noteq> CHR 0x0A) c))))"
    by (simp add: trim_ascii)
  with a show "getTemplatesInCategory this w cat
      = Inr [\<lparr>template_id = cat, name = cat, category = cat,
              description =
                rev (dropWhile white_space_1
                  (rev (dropWhile white_space_1 (takeWhile (\<lambda>x. x \<noteq> CHR 0x0A) c)))),
              content = c\<rparr>]"
    by (simp add: getTemplatesInCategory_def Let_def first_piece)
next
  assume "files w (path_join (path_join (rulesPath this) cat) ''.cursorrules'') = None"
  then show "isl (getTemplatesInCategory this w cat)"
    by (simp add: getTemplatesInCategory_def Let_def readFile_def)
qed

theorem description_is_first_line_trimmed_witness:
  "getTemplatesInCategory (new_TemplateService ''/ext/vscode-extension'') library_world ''docs''
     = Inr [\<lparr>template_id = ''docs'', name = ''docs'', category = ''docs'',
             description = ''# Rules'',
             content = ''  # Rules '' @ [CHR 0x0D, CHR 0x0A] @ ''body''\<rparr>]
   \<and> isl (getTemplatesInCategory (new_TemplateService ''/ext/vscode-extension'') library_world ''go'')"
proof -
  let ?c = "''  # Rules '' @ [CHR 0x0D, CHR 0x0A] @ ''body''"
  have 1: "readFile library_world
      (path_join (path_join (rulesPath (new_TemplateService ''/ext/vscode-extension'')) ''docs'')
        ''.cursorrules'') = Inr ?c"
    by (simp add: ex_rules ex_docs readFile_def library_world_def example_world_def)
  have 2: "list_all is_ascii (takeWhile (\<lambda>x. x \<noteq> CHR 0x0A) ?c)"
    by (simp add: is_ascii_def)
  have 3: "files library_world
      (path_join (path_join (rulesPath (new_TemplateService ''/ext/vscode-extension'')) ''go'')
        ''.cursorrules'') = None"
    by (simp add: ex_rules ex_go library_world_def example_world_def)
  from description_is_first_line_trimmed
    [of library_world "new_TemplateService ''/ext/vscode-extension''" "''docs''" ?c]
    description_is_first_line_trimmed
    [of library_world "new_TemplateService ''/ext/vscode-extension''" "''go''"]
    1 2 3
  show ?thesis by (simp add: white_space_1_def)
qed

subsection \<open>Schema validation\<close>

lemma valid_rule_needs:
  assumes "valid_rule (JObject kvs)"
  shows "member_of kvs ''id'' \<noteq> None \<and> member_of kvs ''description'' \<noteq> None
     \<and> (\<exists>l. member_of kvs ''level'' = Some (JString l) \<and> l \<in> {''error'', ''warning'', ''info'', ''hint''})"
proof -
  from assms have req: "member_of kvs ''id'' \<noteq> None" "member_of kvs ''level'' \<noteq> None"
      "member_of kvs ''description'' \<noteq> None"
    and lv: "property_ok kvs ''level'' (\<lambda>x. is_string x \<and> x \<in> set level_enum)"
    by (simp_all add: valid_rule_def required_def)
  from req(2) obtain v where v: "member_of kvs ''level'' = Some v" by auto
  with lv have s: "is_string v" and m: "v \<in> set level_enum" by (simp_all add: property_ok_def)
  from s obtain l where l: "v = JString l" by (cases v) (simp_all add: is_string_def)
  with m have "l \<in> {''error'', ''warning'', ''info'', ''hint''}"
    by (simp add: level_enum_def)
  with v l req show ?thesis by blast
qed

lemma member_of_in: "member_of ls k = Some c \<Longrightarrow> k \<in> fst ` set ls"
  unfolding member_of_def by (metis map_of_eq_None_iff option.distinct(1) set_rev)

lemma valid_document_rules:
  assumes v: "valid_document (JObject members)"
    and l: "member_of members ''languages'' = Some (JObject ls)"
    and c: "member_of ls lang = Some (JObject cfg)"
    and r: "member_of cfg ''rules'' = Some (JArray rs)" and i: "r \<in> set rs"
  shows "valid_rule r"
proof -
  from v l have "list_all (\<lambda>k. property_ok ls k valid_languageConfig) (map fst ls)"
    by (simp add: valid_document_def property_ok_def)
  moreover from c have "lang \<in> set (map fst ls)" using member_of_in by fastforce
  ultimately have "property_ok ls lang valid_languageConfig"
    by (auto simp: list_all_iff)
  with c have "valid_languageConfig (JObject cfg)" by (simp add: property_ok_def)
  with r have "list_all valid_rule rs" by (simp add: valid_languageConfig_def property_ok_def)
  with i show ?thesis by (simp add: list_all_iff)
qed

lemma ex_ok: "valid_document (example_document ''warning'')"
  by (simp add: valid_document_def example_document_def example_rule_def required_def
      property_ok_def member_of_def version_pattern_def is_digit_def valid_languageConfig_def
      valid_rule_def is_string_def level_enum_def)

lemma ex_bad: "\<not> valid_document (example_document ''critical'')"
  by (simp add: valid_document_def example_document_def example_rule_def required_def
      property_ok_def member_of_def version_pattern_def is_digit_def valid_languageConfig_def
      valid_rule_def is_string_def level_enum_def)


text \<open>
  C7. A rule object without \<^verbatim>\<open>id\<close>, \<^verbatim>\<open>level\<close> or \<^verbatim>\<open>description\<close>, or whose \<^verbatim>\<open>level\<close> is
  not one of error, warning, info, hint, fails the schema of a rule, and a document with
  such a rule among the rules of one of its languages fails the schema. The document of
  the scenario with level warning passes, the same document with level critical fails.
\<close>

theorem schema_rejects_bad_rules:
  "(member_of kvs ''id'' = None \<or> member_of kvs ''description'' = None
      \<or> member_of kvs ''level'' \<notin> {Some (JString ''error''), Some (JString ''warning''),
            Some (JString ''info''), Some (JString ''hint'')}
     \<longrightarrow> \<not> valid_rule (JObject kvs))
   \<and> (member_of members ''languages'' = Some (JObject ls)
        \<and> member_of ls lang = Some (JObject cfg)
        \<and> member_of cfg ''rules'' = Some (JArray rs) \<and> r \<in> set rs \<and> \<not> valid_rule r
     \<longrightarrow> \<not> valid_document (JObject members))
   \<and> valid_document (example_document ''warning'')
   \<and> \<not> valid_document (example_document ''critical'')"
proof (intro conjI impI)
  assume "member_of kvs ''id'' = None \<or> member_of kvs ''description'' = None
      \<or> member_of kvs ''level'' \<notin> {Some (JString ''error''), Some (JString ''warning''),
            Some (JString ''info''), Some (JString ''hint'')}"
  then show "\<not> valid_rule (JObject kvs)"
    using valid_rule_needs [of kvs] by auto
next
  assume "member_of members ''languages'' = Some (JObject ls)
        \<and> member_of ls lang = Some (JObject cfg)
        \<and> member_of cfg ''rules'' = Some (JArray rs) \<and> r \<in> set rs \<and> \<not> valid_rule r"
  then show "\<not> valid_document (JObject members)"
    using valid_document_rules [of members ls lang cfg rs r] by blast
next
  show "valid_document (example_document ''warning'')" by (rule ex_ok)
next
  show "\<not> valid_document (example_document ''critical'')" by (rule ex_bad)
qed

theorem schema_rejects_bad_rules_witness:
  "\<not> valid_rule (JObject [(''level'', JString ''info''), (''description'', JString ''x'')])
   \<and> \<not> valid_rule (example_rule ''critical'')
   \<and> \<not> valid_document (JObject [(''version'', JString ''1.0.0''),
        (''languages'', JObject [(''ts'', JObject [(''rules'', JArray [example_rule ''critical''])])])])"
proof -
  have 1: "member_of [(''level'', JString ''info''), (''description'', JString ''x'')] ''id'' = None"
    by (simp add: member_of_def)
  have 2: "member_of [(''id'', JString ''r1''), (''level'', JString ''critical''),
       (''description'', JString ''x'')] ''level''
     \<notin> {Some (JString ''error''), Some (JString ''warning''), Some (JString ''info''),
         Some (JString ''hint'')}"
    by (simp add: member_of_def)
  have 3: "\<not> valid_rule (example_rule ''critical'')"
    using schema_rejects_bad_rules
      [of "[(''id'', JString ''r1''), (''level'', JString ''critical''), (''description'', JString ''x'')]"]
      2
    by (simp add: example_rule_def)
  have 4: "member_of [(''version'', JString ''1.0.0''),
        (''languages'', JObject [(''ts'', JObject [(''rules'', JArray [example_rule ''critical''])])])]
        ''languages'' = Some (JObject [(''ts'', JObject [(''rules'', JArray [example_rule ''critical''])])])"
    "member_of [(''ts'', JObject [(''rules'', JArray [example_rule ''critical''])])] ''ts''
       = Some (JObject [(''rules'', JArray [example_rule ''critical''])])"
    "member_of [(''rules'', JArray [example_rule ''critical''])] ''rules''
       = Some (JArray [example_rule ''critical''])"
    by (simp_all add: member_of_def)
  from schema_rejects_bad_rules
      [of "[(''level'', JString ''info''), (''description'', JString ''x'')]"
        "[(''version'', JString ''1.0.0''),
          (''languages'', JObject [(''ts'', JObject [(''rules'', JArray [example_rule ''critical''])])])]"
        "[(''ts'', JObject [(''rules'', JArray [example_rule ''critical''])])]"
        "''ts''" "[(''rules'', JArray [example_rule ''critical''])]"
        "[example_rule ''critical'']" "example_rule ''critical''"]
    1 3 4
  show ?thesis by simp
qed


subsection \<open>The name of a backup\<close>

lemma of_char_digit: "of_char (digit n) = 48 + n mod 10"
  unfolding digit_def of_char_of
  by (simp add: mod_less less_le_trans [of "48 + n mod 10" 58 256])

lemma digit_less_iff: "digit a < digit b \<longleftrightarrow> a mod 10 < b mod 10"
  by (simp add: less_char_def of_char_digit)

lemma digit_eq_iff: "digit a = digit b \<longleftrightarrow> a mod 10 = b mod 10"
proof -
  have "digit a = digit b \<longleftrightarrow> (of_char (digit a) :: nat) = of_char (digit b)"
    by (simp only: of_char_eq_iff)
  then show ?thesis by (simp add: of_char_digit)
qed

lemma digit_not_separator: "digit n \<noteq> CHR '':'' \<and> digit n \<noteq> CHR ''.''"
proof -
  have "(of_char (digit n) :: nat) \<noteq> of_char CHR '':''"
    and "(of_char (digit n) :: nat) \<noteq> of_char CHR ''.''"
    by (simp_all add: of_char_digit)
  then show ?thesis by auto
qed

lemma length_pad: "length (pad w n) = w"
  by (induction w arbitrary: n) simp_all

lemma replace_pad: "replace_colon_dot (pad w n) = pad w n"
  by (induction w arbitrary: n) (simp_all add: replace_colon_dot_def digit_not_separator)

lemma replace_Cons:
  "replace_colon_dot (c # cs)
   = (if c = CHR '':'' \<or> c = CHR ''.'' then CHR ''-'' else c) # replace_colon_dot cs"
  and replace_Nil: "replace_colon_dot [] = []"
  by (simp_all add: replace_colon_dot_def)

lemma replace_append: "replace_colon_dot (xs @ ys) = replace_colon_dot xs @ replace_colon_dot ys"
  by (simp add: replace_colon_dot_def)

lemma append_less_same_length:
  fixes xs ys :: "'a::linorder list"
  assumes "length xs = length ys"
  shows "xs @ a < ys @ b \<longleftrightarrow> xs < ys \<or> xs = ys \<and> a < b"
  using assms by (induction xs ys rule: list_induct2) auto

lemma same_prefix_less:
  fixes s :: "'a::linorder list"
  shows "s @ a < s @ b \<longleftrightarrow> a < b"
  by (induction s) auto

lemma div_mod_lex:
  "r1 < 10 \<Longrightarrow> r2 < 10 \<Longrightarrow> (q1 < q2 \<or> q1 = q2 \<and> r1 < r2) \<longleftrightarrow> 10 * q1 + r1 < 10 * q2 + (r2::nat)"
  by linarith

lemma less_by_digits:
  "((n::nat) div 10 < m div 10 \<or> n div 10 = m div 10 \<and> n mod 10 < m mod 10) \<longleftrightarrow> n < m"
  using div_mod_lex [of "n mod 10" "m mod 10" "n div 10" "m div 10"] by simp

lemma div10_bound: "(n::nat) < 10 ^ Suc w \<Longrightarrow> n div 10 < 10 ^ w"
  by (simp add: less_mult_imp_div_less mult.commute)

lemma pad_eq_iff: "n < 10 ^ w \<Longrightarrow> m < 10 ^ w \<Longrightarrow> pad w n = pad w m \<longleftrightarrow> n = m"
proof (induction w arbitrary: n m)
  case 0
  then show ?case by simp
next
  case (Suc w)
  from Suc.prems have "n div 10 < 10 ^ w" "m div 10 < 10 ^ w"
    by (simp_all only: div10_bound)
  with Suc.IH have ih: "pad w (n div 10) = pad w (m div 10) \<longleftrightarrow> n div 10 = m div 10" by blast
  have "pad (Suc w) n = pad (Suc w) m
      \<longleftrightarrow> pad w (n div 10) = pad w (m div 10) \<and> digit n = digit m"
    by (simp add: length_pad)
  also have "\<dots> \<longleftrightarrow> n div 10 = m div 10 \<and> n mod 10 = m mod 10"
    by (simp add: ih digit_eq_iff)
  also have "\<dots> \<longleftrightarrow> n = m"
    by (metis div_mult_mod_eq)
  finally show ?case .
qed

lemma pad_less_iff: "n < 10 ^ w \<Longrightarrow> m < 10 ^ w \<Longrightarrow> pad w n < pad w m \<longleftrightarrow> n < m"
proof (induction w arbitrary: n m)
  case 0
  then show ?case by simp
next
  case (Suc w)
  from Suc.prems have b: "n div 10 < 10 ^ w" "m div 10 < 10 ^ w"
    by (simp_all only: div10_bound)
  with Suc.IH have ih: "pad w (n div 10) < pad w (m div 10) \<longleftrightarrow> n div 10 < m div 10" by blast
  from b have ie: "pad w (n div 10) = pad w (m div 10) \<longleftrightarrow> n div 10 = m div 10"
    by (rule pad_eq_iff)
  have "pad (Suc w) n < pad (Suc w) m
      \<longleftrightarrow> pad w (n div 10) < pad w (m div 10)
          \<or> pad w (n div 10) = pad w (m div 10) \<and> [digit n] < [digit m]"
    by (simp add: append_less_same_length length_pad)
  also have "\<dots> \<longleftrightarrow> n div 10 < m div 10 \<or> n div 10 = m div 10 \<and> n mod 10 < m mod 10"
    by (simp add: ih ie digit_less_iff)
  also have "\<dots> \<longleftrightarrow> n < m"
    by (rule less_by_digits)
  finally show ?case .
qed


lemma field_less:
  assumes "n < 10 ^ w" and "m < 10 ^ w"
  shows "pad w n @ c # r1 < pad w m @ c # r2 \<longleftrightarrow> n < m \<or> n = m \<and> r1 < r2"
proof -
  have "pad w n @ c # r1 < pad w m @ c # r2
      \<longleftrightarrow> pad w n < pad w m \<or> pad w n = pad w m \<and> c # r1 < c # r2"
    by (rule append_less_same_length) (simp add: length_pad)
  then show ?thesis
    using assms by (simp add: pad_less_iff pad_eq_iff)
qed

lemma token_layout:
  assumes "year d \<le> 9999"
  shows "timestamp_token d =
     pad 4 (year d) @ CHR ''-'' # pad 2 (month d) @ CHR ''-'' # pad 2 (day d)
     @ CHR ''T'' # pad 2 (hours d) @ CHR ''-'' # pad 2 (minutes d) @ CHR ''-'' # pad 2 (seconds d)
     @ CHR ''-'' # pad 3 (milliseconds d) @ CHR ''Z'' # []"
  using assms
  by (simp add: timestamp_token_def toISOString_def replace_append replace_pad replace_Cons
      replace_Nil)

lemma key_less:
  "date_key d1 < date_key d2 \<longleftrightarrow>
     year d1 < year d2 \<or> year d1 = year d2 \<and>
     (month d1 < month d2 \<or> month d1 = month d2 \<and>
     (day d1 < day d2 \<or> day d1 = day d2 \<and>
     (hours d1 < hours d2 \<or> hours d1 = hours d2 \<and>
     (minutes d1 < minutes d2 \<or> minutes d1 = minutes d2 \<and>
     (seconds d1 < seconds d2 \<or> seconds d1 = seconds d2 \<and>
      milliseconds d1 < milliseconds d2)))))"
  unfolding date_key_def prod_less_eq by simp

lemma token_less:
  assumes "four_digit_year d1" and "four_digit_year d2"
  shows "timestamp_token d1 < timestamp_token d2 \<longleftrightarrow> date_key d1 < date_key d2"
proof -
  from assms have y: "year d1 \<le> 9999" "year d2 \<le> 9999" by (simp_all add: four_digit_year_def)
  from assms have b: "year d1 < 10 ^ 4" "year d2 < 10 ^ 4" "month d1 < 10 ^ 2" "month d2 < 10 ^ 2"
    "day d1 < 10 ^ 2" "day d2 < 10 ^ 2" "hours d1 < 10 ^ 2" "hours d2 < 10 ^ 2"
    "minutes d1 < 10 ^ 2" "minutes d2 < 10 ^ 2" "seconds d1 < 10 ^ 2" "seconds d2 < 10 ^ 2"
    "milliseconds d1 < 10 ^ 3" "milliseconds d2 < 10 ^ 3"
    by (simp_all add: four_digit_year_def)
  show ?thesis
    unfolding token_layout [OF y(1)] token_layout [OF y(2)] key_less
    by (simp only: field_less [OF b(1,2)] field_less [OF b(3,4)] field_less [OF b(5,6)]
        field_less [OF b(7,8)] field_less [OF b(9,10)] field_less [OF b(11,12)]
        field_less [OF b(13,14)] less_irrefl simp_thms)
qed

lemma split_on_no_sep: "c \<notin> set s \<Longrightarrow> split_on c s = [s]"
  by (induction s) auto

lemma split_on_not_Nil: "split_on c s \<noteq> []"
  by (induction s) (auto split: list.splits)

lemma split_on_append_sep: "split_on c (xs @ c # ys) = split_on c xs @ split_on c ys"
proof (induction xs)
  case Nil
  then show ?case by simp
next
  case (Cons x xs)
  then show ?case
    using split_on_not_Nil [of c xs]
    by (cases "split_on c xs") auto
qed

lemma last_split_on:
  assumes "c \<notin> set seg" and "pre = [] \<or> last pre = c"
  shows "last (split_on c (pre @ seg)) = seg"
proof (cases "pre = []")
  case True
  with assms show ?thesis by (simp add: split_on_no_sep)
next
  case False
  with assms obtain q where "pre = q @ [c]"
    by (metis append_butlast_last_id)
  with assms show ?thesis
    by (simp add: split_on_append_sep split_on_no_sep)
qed

lemma normalize_segments_last:
  assumes "seg \<noteq> []" and "seg \<noteq> ''.''" and "seg \<noteq> ''..''"
  shows "normalize_segments a acc (xs @ [seg]) = normalize_segments a acc xs @ [seg]"
  using assms
  by (induction a acc xs rule: normalize_segments.induct) (auto split: list.splits)

lemma join_with_last:
  "join_with sep (ys @ [seg]) = (if ys = [] then seg else join_with sep ys @ sep @ seg)"
  by (induction sep ys rule: join_with.induct) auto

lemma path_normalize_last:
  assumes n: "seg \<noteq> []" "seg \<noteq> ''.''" "seg \<noteq> ''..''" "CHR ''/'' \<notin> set seg"
    and p: "pre = [] \<or> last pre = CHR ''/''"
  shows "\<exists>pre'. path_normalize (pre @ seg) = pre' @ seg \<and> (pre' = [] \<or> last pre' = CHR ''/'')"
proof -
  let ?p = "pre @ seg"
  have sp: "\<exists>xs. split_on CHR ''/'' ?p = xs @ [seg]"
  proof (cases "pre = []")
    case True
    with n show ?thesis by (simp add: split_on_no_sep)
  next
    case False
    with p obtain q where "pre = q @ ''/''" by (metis append_butlast_last_id)
    with n show ?thesis by (simp add: split_on_append_sep split_on_no_sep)
  qed
  then obtain xs where xs: "split_on CHR ''/'' ?p = xs @ [seg]" by blast
  define a where "a = (hd ?p = CHR ''/'')"
  define ys where "ys = normalize_segments (\<not> a) [] xs"
  have ns: "normalize_segments (\<not> a) [] (split_on CHR ''/'' ?p) = ys @ [seg]"
    by (simp add: xs ys_def normalize_segments_last n)
  define j where "j = (if ys = [] then [] else join_with ''/'' ys @ ''/'')"
  have js: "join_with ''/'' (ys @ [seg]) = j @ seg"
    by (simp add: join_with_last j_def)
  have jl: "j = [] \<or> last j = CHR ''/''" by (simp add: j_def)
  have lastp: "last ?p \<noteq> CHR ''/''"
  proof
    assume "last ?p = CHR ''/''"
    with n have l: "last seg = CHR ''/''" by simp
    from n have "last seg \<in> set seg" by simp
    then have "CHR ''/'' \<in> set seg" unfolding l .
    with n show False by simp
  qed
  have pn: "path_normalize ?p = ((if a then ''/'' else []) @ j) @ seg"
    using n lastp by (simp add: path_normalize_def Let_def a_def [symmetric] ns js)
  have "(if a then ''/'' else []) @ j = [] \<or> last ((if a then ''/'' else []) @ j) = CHR ''/''"
    using jl by auto
  with pn show ?thesis by blast
qed

lemma path_join_last:
  assumes n: "seg \<noteq> []" "seg \<noteq> ''.''" "seg \<noteq> ''..''" "CHR ''/'' \<notin> set seg"
  shows "last (split_on CHR ''/'' (path_join dir seg)) = seg"
proof -
  let ?pre = "if dir = [] then [] else dir @ ''/''"
  have pj: "path_join dir seg = path_normalize (?pre @ seg)"
    using n by (simp add: path_join_def)
  have "?pre = [] \<or> last ?pre = CHR ''/''" by simp
  from path_normalize_last [OF n this] obtain pre'
    where a: "path_normalize (?pre @ seg) = pre' @ seg"
      and b: "pre' = [] \<or> last pre' = CHR ''/''" by blast
  show ?thesis unfolding pj a using n(4) b by (rule last_split_on)
qed


lemma digit_not_slash: "digit n \<noteq> CHR ''/''"
proof -
  have "(of_char (digit n) :: nat) \<noteq> of_char CHR ''/''"
    by (simp add: of_char_digit)
  then show ?thesis by auto
qed

lemma pad_no_slash: "CHR ''/'' \<notin> set (pad w n)"
proof (induction w arbitrary: n)
  case 0
  show ?case by simp
next
  case (Suc w)
  have "CHR ''/'' \<noteq> digit n" using digit_not_slash [of n] by (rule not_sym)
  with Suc show ?case by simp
qed

lemma replace_no_separator:
  "CHR '':'' \<notin> set (replace_colon_dot s) \<and> CHR ''.'' \<notin> set (replace_colon_dot s)"
  by (induction s) (auto simp: replace_Cons replace_Nil)

lemma replace_no_slash: "CHR ''/'' \<notin> set s \<Longrightarrow> CHR ''/'' \<notin> set (replace_colon_dot s)"
  by (induction s) (auto simp: replace_Cons replace_Nil)

lemma token_no_slash: "CHR ''/'' \<notin> set (timestamp_token d)"
  unfolding timestamp_token_def
  by (rule replace_no_slash) (simp add: toISOString_def pad_no_slash)

lemma backup_name_plain:
  "backup_name d \<noteq> [] \<and> backup_name d \<noteq> ''.'' \<and> backup_name d \<noteq> ''..''
   \<and> CHR ''/'' \<notin> set (backup_name d)"
  by (simp add: backup_name_def token_no_slash)

lemma length_token: "year d \<le> 9999 \<Longrightarrow> length (timestamp_token d) = 24"
  by (simp add: token_layout length_pad)

lemma backup_name_less:
  assumes "year d \<le> 9999" and "year d' \<le> 9999"
  shows "backup_name d < backup_name d' \<longleftrightarrow> timestamp_token d < timestamp_token d'"
proof -
  have "backup_name d < backup_name d'
      \<longleftrightarrow> timestamp_token d @ ''.backup'' < timestamp_token d' @ ''.backup''"
    unfolding backup_name_def by (rule same_prefix_less)
  also have "\<dots> \<longleftrightarrow> timestamp_token d < timestamp_token d'
      \<or> timestamp_token d = timestamp_token d' \<and> ''.backup'' < ''.backup''"
    by (rule append_less_same_length) (simp add: length_token assms)
  finally show ?thesis by simp
qed

lemma ex_token: "timestamp_token example_date = ''2024-01-02T03-04-05-006Z''"
  by code_simp

lemma ex_later_token: "timestamp_token later_date = ''2024-01-02T03-04-59-006Z''"
  by code_simp

text \<open>
  C8. The backup's file name is the configuration file name \<^verbatim>\<open>.cursorrules\<close>, a dot, the
  timestamp token and the suffix \<^verbatim>\<open>.backup\<close>, and it is the last segment of the URI the
  backup is copied to. The token is the ISO-8601 rendering of the time with every colon
  and dot replaced by a hyphen, so neither occurs in it. For dates the plain format writes
  (years up to 9999), tokens and backup names are ordered as texts exactly as the dates are
  in time.
\<close>

theorem backup_name_format:
  "backup_name d = ''.cursorrules'' @ ''.'' @ timestamp_token d @ ''.backup''
   \<and> timestamp_token d
       = map (\<lambda>c. if c = CHR '':'' \<or> c = CHR ''.'' then CHR ''-'' else c) (toISOString d)
   \<and> CHR '':'' \<notin> set (timestamp_token d) \<and> CHR ''.'' \<notin> set (timestamp_token d)
   \<and> last (split_on CHR ''/'' (backup_uri d target)) = backup_name d
   \<and> (four_digit_year d \<and> four_digit_year d'
      \<longrightarrow> (timestamp_token d < timestamp_token d' \<longleftrightarrow> date_key d < date_key d')
        \<and> (backup_name d < backup_name d' \<longleftrightarrow> date_key d < date_key d'))"
proof (intro conjI impI)
  show "backup_name d = ''.cursorrules'' @ ''.'' @ timestamp_token d @ ''.backup''"
    by (simp add: backup_name_def)
  show "timestamp_token d
       = map (\<lambda>c. if c = CHR '':'' \<or> c = CHR ''.'' then CHR ''-'' else c) (toISOString d)"
    by (simp add: timestamp_token_def replace_colon_dot_def)
  show "CHR '':'' \<notin> set (timestamp_token d)" "CHR ''.'' \<notin> set (timestamp_token d)"
    using replace_no_separator [of "toISOString d"] by (simp_all add: timestamp_token_def)
  show "last (split_on CHR ''/'' (backup_uri d target)) = backup_name d"
    using backup_name_plain [of d]
    by (simp add: backup_uri_def joinPath_def path_join_last)
next
  assume a: "four_digit_year d \<and> four_digit_year d'"
  then show t: "timestamp_token d < timestamp_token d' \<longleftrightarrow> date_key d < date_key d'"
    by (simp add: token_less)
  from a have "year d \<le> 9999" "year d' \<le> 9999" by (simp_all add: four_digit_year_def)
  then show "backup_name d < backup_name d' \<longleftrightarrow> date_key d < date_key d'"
    using t by (simp add: backup_name_less)
qed

theorem backup_name_format_witness:
  "four_digit_year example_date \<and> four_digit_year later_date
   \<and> date_key example_date < date_key later_date
   \<and> ''2024-01-02T03-04-05-006Z'' < ''2024-01-02T03-04-59-006Z''
   \<and> backup_name example_date < backup_name later_date"
proof -
  have 1: "four_digit_year example_date" "four_digit_year later_date"
    by (simp_all add: four_digit_year_def example_date_def later_date_def)
  have 2: "date_key example_date < date_key later_date"
    by (simp add: date_key_def example_date_def later_date_def)
  from backup_name_format [of example_date "''/ws/.cursorrules''" later_date] 1 2
  have "timestamp_token example_date < timestamp_token later_date"
    and 3: "backup_name example_date < backup_name later_date"
    by blast+
  then have "''2024-01-02T03-04-05-006Z'' < ''2024-01-02T03-04-59-006Z''"
    by (simp only: ex_token ex_later_token)
  with 1 2 3 show ?thesis by blast
qed


end
